theory Spec2Isabelle
  imports Main "HOL-Library.Word" "HOL-Library.Char_ord" "HOL-Library.List_Lexorder"
    "HOL-Library.Multiset"
begin

section \<open>Coins of basecoin: the data model of \<^verbatim>\<open>types/coin.go\<close>\<close>

text \<open>
  A Go \<^verbatim>\<open>string\<close> is a sequence of bytes, compared byte by byte; \<^typ>\<open>string\<close> with the
  lexicographic order on lists over the order of \<^typ>\<open>char\<close> by code is the same order.
  \<^verbatim>\<open>Amount\<close> is an \<^verbatim>\<open>int64\<close>: a 64-bit word, whose \<open>+\<close> and unary \<open>-\<close> wrap around as
  Go's do, read as a signed number by \<^const>\<open>sint\<close>.
\<close>

record Coin =
  Denom :: string
  Amount :: "64 word"

type_synonym Coins = "Coin list"

subsection \<open>Validation\<close>

text \<open>
  \<^verbatim>\<open>IsValid\<close>, \<^verbatim>\<open>default\<close> branch: the loop over \<^verbatim>\<open>coins[1:]\<close> with the variable
  \<^verbatim>\<open>lowDenom\<close>. Each coin of the tail is compared with the denomination before it and
  has its amount tested; the loop returns at the first failure.
\<close>

fun IsValid_loop :: "string \<Rightarrow> Coins \<Rightarrow> bool" where
  "IsValid_loop lowDenom [] = True"
| "IsValid_loop lowDenom (coin # rest) =
     (if Denom coin \<le> lowDenom then False
      else if Amount coin = 0 then False
      else IsValid_loop (Denom coin) rest)"

text \<open>
  \<^verbatim>\<open>IsValid\<close>: the \<^verbatim>\<open>switch len(coins)\<close>. With two coins or more the amount of
  \<^verbatim>\<open>coins[0]\<close> is not looked at: only its denomination starts the loop.
\<close>

fun IsValid :: "Coins \<Rightarrow> bool" where
  "IsValid [] = True"
| "IsValid [coin] = (Amount coin \<noteq> 0)"
| "IsValid (coin0 # rest) = IsValid_loop (Denom coin0) rest"

subsection \<open>Addition, negation, subtraction\<close>

text \<open>
  \<^verbatim>\<open>Plus\<close>: the \<^verbatim>\<open>for\<close> loop. The two cursors \<^verbatim>\<open>indexA\<close> and \<^verbatim>\<open>indexB\<close> only move
  forward, so the state of the loop is the pair of remaining slices
  \<^verbatim>\<open>coinsA[indexA:]\<close>, \<^verbatim>\<open>coinsB[indexB:]\<close> and the accumulator \<^verbatim>\<open>sum\<close> (here \<open>sumAcc\<close>). The first three
  equations are the exits taken when a cursor has reached the end; the last one is the
  \<^verbatim>\<open>switch strings.Compare(coinA.Denom, coinB.Denom)\<close> with its cases -1, 0 and 1.
\<close>

fun Plus_loop :: "Coins \<Rightarrow> Coins \<Rightarrow> Coins \<Rightarrow> Coins" where
  "Plus_loop [] [] sumAcc = sumAcc"
| "Plus_loop [] (coinB # restB) sumAcc = sumAcc @ (coinB # restB)"
| "Plus_loop (coinA # restA) [] sumAcc = sumAcc @ (coinA # restA)"
| "Plus_loop (coinA # restA) (coinB # restB) sumAcc =
     (if Denom coinA < Denom coinB then
        Plus_loop restA (coinB # restB) (sumAcc @ [coinA])
      else if Denom coinA = Denom coinB then
        (if Amount coinA + Amount coinB = 0 then Plus_loop restA restB sumAcc
         else Plus_loop restA restB
                (sumAcc @ [\<lparr>Denom = Denom coinA, Amount = Amount coinA + Amount coinB\<rparr>]))
      else
        Plus_loop (coinA # restA) restB (sumAcc @ [coinB]))"

definition Plus :: "Coins \<Rightarrow> Coins \<Rightarrow> Coins" where
  "Plus coinsA coinsB = Plus_loop coinsA coinsB []"

definition Negative :: "Coins \<Rightarrow> Coins" where
  "Negative coins = map (\<lambda>coin. \<lparr>Denom = Denom coin, Amount = - Amount coin\<rparr>) coins"

definition Minus :: "Coins \<Rightarrow> Coins \<Rightarrow> Coins" where
  "Minus coinsA coinsB = Plus coinsA (Negative coinsB)"

subsection \<open>Comparisons\<close>

text \<open>\<^verbatim>\<open>IsNonnegative\<close> and \<^verbatim>\<open>IsPositive\<close>: the loops return at the first offending coin.\<close>

fun IsNonnegative :: "Coins \<Rightarrow> bool" where
  "IsNonnegative [] = True"
| "IsNonnegative (coinAmount # rest) =
     (if sint (Amount coinAmount) < 0 then False else IsNonnegative rest)"

fun IsPositive_loop :: "Coins \<Rightarrow> bool" where
  "IsPositive_loop [] = True"
| "IsPositive_loop (coinAmount # rest) =
     (if sint (Amount coinAmount) \<le> 0 then False else IsPositive_loop rest)"

definition IsPositive :: "Coins \<Rightarrow> bool" where
  "IsPositive coins = (if length coins = 0 then False else IsPositive_loop coins)"

definition IsGTE :: "Coins \<Rightarrow> Coins \<Rightarrow> bool" where
  "IsGTE coinsA coinsB =
     (let diff = Minus coinsA coinsB
      in if length diff = 0 then True else IsNonnegative diff)"

definition IsZero :: "Coins \<Rightarrow> bool" where
  "IsZero coins = (length coins = 0)"

text \<open>
  \<^verbatim>\<open>IsEqual\<close>: after the test of the lengths, the loop compares the coins index by
  index and returns at the first difference.
\<close>

fun IsEqual_loop :: "Coins \<Rightarrow> Coins \<Rightarrow> bool" where
  "IsEqual_loop (coinA # restA) (coinB # restB) =
     (if coinA \<noteq> coinB then False else IsEqual_loop restA restB)"
| "IsEqual_loop coinsA coinsB = True"

definition IsEqual :: "Coins \<Rightarrow> Coins \<Rightarrow> bool" where
  "IsEqual coinsA coinsB =
     (if length coinsA \<noteq> length coinsB then False else IsEqual_loop coinsA coinsB)"

subsection \<open>Functions of the Go library that the parser calls\<close>

text \<open>
  The character classes of the pattern \<^verbatim>\<open>reCoin\<close>. In Go's regular expressions
  \<^verbatim>\<open>[[:digit:]]\<close> is \<^verbatim>\<open>[0-9]\<close>, \<^verbatim>\<open>[[:space:]]\<close> is \<^verbatim>\<open>[\t\n\v\f\r ]\<close> and
  \<^verbatim>\<open>[[:alpha:]]\<close> is \<^verbatim>\<open>[A-Za-z]\<close>: ASCII only, so no byte from 128 up is in any of them.
\<close>

definition isDigit :: "char \<Rightarrow> bool" where
  "isDigit c = (CHR ''0'' \<le> c \<and> c \<le> CHR ''9'')"

definition isSpace :: "char \<Rightarrow> bool" where
  "isSpace c = (c \<in> set [CHR 0x09, CHR 0x0A, CHR 0x0B, CHR 0x0C, CHR 0x0D, CHR '' ''])"

definition isAlpha :: "char \<Rightarrow> bool" where
  "isAlpha c = ((CHR ''A'' \<le> c \<and> c \<le> CHR ''Z'') \<or> (CHR ''a'' \<le> c \<and> c \<le> CHR ''z''))"

text \<open>
  \<^verbatim>\<open>reCoin.FindStringSubmatch\<close> for the pattern
  \<^verbatim>\<open>^([[:digit:]]+)[[:space:]]*([[:alpha:]]+)$\<close>: \<open>None\<close> is Go's \<^verbatim>\<open>nil\<close>, and
  \<open>Some (m1, m2)\<close> gives \<^verbatim>\<open>matches[1]\<close> and \<^verbatim>\<open>matches[2]\<close>. The three classes are
  pairwise disjoint, so the pattern can only match with the longest run of digits, then
  the longest run of spaces, then letters up to the end of the text.
\<close>

definition reCoin_FindStringSubmatch :: "string \<Rightarrow> (string \<times> string) option" where
  "reCoin_FindStringSubmatch s =
     (let digits = takeWhile isDigit s;
          rest = dropWhile isSpace (dropWhile isDigit s);
          letters = takeWhile isAlpha rest
      in if digits \<noteq> [] \<and> letters \<noteq> [] \<and> dropWhile isAlpha rest = []
         then Some (digits, letters) else None)"

text \<open>
  The UTF-8 encodings of the code points for which \<^verbatim>\<open>unicode.IsSpace\<close> holds: the six
  ASCII ones, U+0085, U+00A0, U+1680, U+2000 to U+200A, U+2028, U+2029, U+202F, U+205F
  and U+3000.
\<close>

definition spaceRunes :: "string list" where
  "spaceRunes =
     [[CHR 0x09], [CHR 0x0A], [CHR 0x0B], [CHR 0x0C], [CHR 0x0D], [CHR 0x20],
      [CHR 0xC2, CHR 0x85], [CHR 0xC2, CHR 0xA0],
      [CHR 0xE1, CHR 0x9A, CHR 0x80],
      [CHR 0xE2, CHR 0x80, CHR 0x80], [CHR 0xE2, CHR 0x80, CHR 0x81],
      [CHR 0xE2, CHR 0x80, CHR 0x82], [CHR 0xE2, CHR 0x80, CHR 0x83],
      [CHR 0xE2, CHR 0x80, CHR 0x84], [CHR 0xE2, CHR 0x80, CHR 0x85],
      [CHR 0xE2, CHR 0x80, CHR 0x86], [CHR 0xE2, CHR 0x80, CHR 0x87],
      [CHR 0xE2, CHR 0x80, CHR 0x88], [CHR 0xE2, CHR 0x80, CHR 0x89],
      [CHR 0xE2, CHR 0x80, CHR 0x8A],
      [CHR 0xE2, CHR 0x80, CHR 0xA8], [CHR 0xE2, CHR 0x80, CHR 0xA9],
      [CHR 0xE2, CHR 0x80, CHR 0xAF],
      [CHR 0xE2, CHR 0x81, CHR 0x9F],
      [CHR 0xE3, CHR 0x80, CHR 0x80]]"

text \<open>
  Removing from the front of a string every leading occurrence of one of the given byte
  sequences; the first byte sequence that is not one of them stops it.
\<close>

fun trimRunes :: "string list \<Rightarrow> string \<Rightarrow> string" where
  "trimRunes runes [] = []"
| "trimRunes runes (c # cs) =
     (case find (\<lambda>r. take (length r) (c # cs) = r) runes of
        None \<Rightarrow> c # cs
      | Some r \<Rightarrow> trimRunes runes (drop (length r - 1) cs))"

text \<open>
  \<^verbatim>\<open>strings.TrimSpace\<close>: the leading white space is removed first, then the trailing
  one. Go decodes the string as UTF-8, forwards at the front and backwards at the end; a
  white-space code point is recognised exactly where its encoding stands, and an invalid or
  truncated sequence is the code point U+FFFD, which is no white space.
\<close>

definition TrimSpace :: "string \<Rightarrow> string" where
  "TrimSpace s = rev (trimRunes (map rev spaceRunes) (rev (trimRunes spaceRunes s)))"

text \<open>
  \<^verbatim>\<open>strings.Split(s, sep)\<close> for a separator of one byte: the pieces between the
  separators, in order; a string without separator, the empty one included, is one piece.
\<close>

fun Split :: "string \<Rightarrow> char \<Rightarrow> string list" where
  "Split [] sep = [[]]"
| "Split (c # cs) sep =
     (if c = sep then [] # Split cs sep
      else (c # hd (Split cs sep)) # tl (Split cs sep))"

text \<open>The number a run of decimal digits denotes.\<close>

definition decimal :: "string \<Rightarrow> int" where
  "decimal ds = foldl (\<lambda>n c. 10 * n + (int (of_char c) - 48)) 0 ds"

text \<open>
  The errors of the parser. \<open>InvalidFormat\<close> is
  \<^verbatim>\<open>errors.Errorf("%s is invalid coin definition", str)\<close>, \<open>InvalidCoinSet\<close> is
  \<^verbatim>\<open>errors.Errorf("ParseCoins invalid: %#v", coins)\<close>, each with the value its message
  prints; \<open>NumError\<close> is the \<^verbatim>\<open>*strconv.NumError\<close> of \<^verbatim>\<open>strconv.Atoi\<close>, with the string
  it was given and \<^verbatim>\<open>ErrSyntax\<close> or \<^verbatim>\<open>ErrRange\<close>.
\<close>

datatype numError = ErrSyntax | ErrRange

datatype error =
    InvalidFormat string
  | NumError string numError
  | InvalidCoinSet Coins

text \<open>
  \<^verbatim>\<open>strconv.Atoi\<close>: an optional sign and decimal digits, with a result of type \<^verbatim>\<open>int\<close>.
  The width of \<^verbatim>\<open>int\<close> is fixed by the platform (32 or 64 bits, \<^verbatim>\<open>strconv.IntSize\<close>)
  and not by this repository, so it is the parameter \<open>intSize\<close>.
\<close>

definition Atoi :: "nat \<Rightarrow> string \<Rightarrow> error + int" where
  "Atoi intSize s =
     (let neg = (s \<noteq> [] \<and> hd s = CHR ''-'');
          ds = (if s \<noteq> [] \<and> (hd s = CHR ''+'' \<or> hd s = CHR ''-'') then tl s else s)
      in if ds = [] \<or> \<not> list_all isDigit ds then Inl (NumError s ErrSyntax)
         else if neg then
           (if decimal ds \<le> 2 ^ (intSize - 1) then Inr (- decimal ds)
            else Inl (NumError s ErrRange))
         else if decimal ds < 2 ^ (intSize - 1) then Inr (decimal ds)
         else Inl (NumError s ErrRange))"

text \<open>
  The verb \<^verbatim>\<open>%v\<close> of \<^verbatim>\<open>fmt.Sprintf\<close> on an \<^verbatim>\<open>int64\<close>: the decimal digits, most
  significant first and without leading zeros, after a minus sign when negative.
\<close>

fun digitsOf :: "nat \<Rightarrow> string" where
  "digitsOf n =
     (if n < 10 then [char_of (48 + n)]
      else digitsOf (n div 10) @ [char_of (48 + n mod 10)])"

declare digitsOf.simps [simp del]

definition FormatInt :: "int \<Rightarrow> string" where
  "FormatInt i = (if i < 0 then CHR ''-'' # digitsOf (nat (- i)) else digitsOf (nat i))"

text \<open>
  \<^verbatim>\<open>sort.Sort\<close> with \<^verbatim>\<open>Less(i, j) = c[i].Denom < c[j].Denom\<close>: the coins in ascending
  order of denomination. Go does not promise an order among coins of equal denomination;
  the insertion sort here keeps theirs. \<^verbatim>\<open>ParseCoins\<close> rejects every slice with two equal
  denominations after sorting it, and on slices without them the sorted order is unique.
\<close>

definition Sort :: "Coins \<Rightarrow> Coins" where
  "Sort c = sort_key Denom c"

subsection \<open>Formatting and parsing\<close>

text \<open>\<^verbatim>\<open>Coin.String\<close>: \<^verbatim>\<open>fmt.Sprintf("%v%v", coin.Amount, coin.Denom)\<close>.\<close>

definition Coin_String :: "Coin \<Rightarrow> string" where
  "Coin_String coin = FormatInt (sint (Amount coin)) @ Denom coin"

text \<open>
  \<^verbatim>\<open>ParseCoin\<close>: the text is trimmed and matched; without a match the error names the
  string as it was given. An error of \<^verbatim>\<open>Atoi\<close> is returned as it is; otherwise the
  \<^verbatim>\<open>int\<close> is converted to \<^verbatim>\<open>int64\<close>.
\<close>

definition ParseCoin :: "nat \<Rightarrow> string \<Rightarrow> error + Coin" where
  "ParseCoin intSize str =
     (case reCoin_FindStringSubmatch (TrimSpace str) of
        None \<Rightarrow> Inl (InvalidFormat str)
      | Some (m1, m2) \<Rightarrow>
          (case Atoi intSize m1 of
             Inl err \<Rightarrow> Inl err
           | Inr amt \<Rightarrow> Inr \<lparr>Denom = m2, Amount = word_of_int amt\<rparr>))"

text \<open>
  \<^verbatim>\<open>Coins.String\<close>: every coin followed by a comma, and the last byte cut off.
\<close>

definition Coins_String :: "Coins \<Rightarrow> string" where
  "Coins_String coins =
     (if length coins = 0 then []
      else butlast (foldl (\<lambda>out coin. out @ Coin_String coin @ '','') [] coins))"

text \<open>
  \<^verbatim>\<open>ParseCoins\<close>: the loop over the pieces stops at the first one that does not parse
  and returns its error (the coins parsed so far, which Go returns beside the error, are
  not part of the result here). Then the coins are sorted and validated.
\<close>

fun ParseCoins_loop :: "nat \<Rightarrow> string list \<Rightarrow> Coins \<Rightarrow> error + Coins" where
  "ParseCoins_loop intSize [] coins = Inr coins"
| "ParseCoins_loop intSize (el # rest) coins =
     (case ParseCoin intSize el of
        Inl err \<Rightarrow> Inl err
      | Inr coin \<Rightarrow> ParseCoins_loop intSize rest (coins @ [coin]))"

definition ParseCoins :: "nat \<Rightarrow> string \<Rightarrow> error + Coins" where
  "ParseCoins intSize str =
     (if length str = 0 then Inr []
      else case ParseCoins_loop intSize (Split str (CHR '','')) [] of
             Inl err \<Rightarrow> Inl err
           | Inr coins \<Rightarrow>
               (let coins = Sort coins
                in if \<not> IsValid coins then Inl (InvalidCoinSet coins) else Inr coins))"

section \<open>The specification's words\<close>

text \<open>
  The union-merge of section 4.5 of the specification, written after its words and without
  the accumulator: an exhausted operand leaves the rest of the other one; the smaller
  denomination is emitted unchanged; equal denominations are summed and the coin is left
  out when the sum is zero.
\<close>

fun spec_union_merge :: "Coins \<Rightarrow> Coins \<Rightarrow> Coins" where
  "spec_union_merge [] B = B"
| "spec_union_merge A [] = A"
| "spec_union_merge (a # A) (b # B) =
     (if Denom a < Denom b then a # spec_union_merge A (b # B)
      else if Denom b < Denom a then b # spec_union_merge (a # A) B
      else if Amount a + Amount b = 0 then spec_union_merge A B
      else \<lparr>Denom = Denom a, Amount = Amount a + Amount b\<rparr> # spec_union_merge A B)"

text \<open>
  The amount a sequence holds for a denomination (the first coin of that denomination),
  and the ordering invariant: denominations strictly ascending, hence without duplicates.
\<close>

fun amountOf :: "Coins \<Rightarrow> string \<Rightarrow> 64 word option" where
  "amountOf [] d = None"
| "amountOf (c # cs) d = (if Denom c = d then Some (Amount c) else amountOf cs d)"

definition denomSorted :: "Coins \<Rightarrow> bool" where
  "denomSorted coins = sorted_wrt (<) (map Denom coins)"

text \<open>
  The grammar of a single coin as section 4.1 of the specification words it: the text is
  one or more decimal digits \<open>ds\<close>, then optional white space, then one or more letters
  \<open>ls\<close>, and nothing else.
\<close>

definition spec_coin_grammar :: "string \<Rightarrow> string \<Rightarrow> string \<Rightarrow> bool" where
  "spec_coin_grammar t ds ls =
     (\<exists>ws. t = ds @ ws @ ls \<and> ds \<noteq> [] \<and> list_all isDigit ds \<and> list_all isSpace ws
        \<and> ls \<noteq> [] \<and> list_all isAlpha ls)"

text \<open>
  What the merge does to the amount of one denomination, in the words of section 4.5: an
  amount held by one operand only is kept, two amounts are summed, and a sum of zero
  leaves no coin.
\<close>

fun spec_sum :: "64 word option \<Rightarrow> 64 word option \<Rightarrow> 64 word option" where
  "spec_sum None None = None"
| "spec_sum (Some x) None = Some x"
| "spec_sum None (Some y) = Some y"
| "spec_sum (Some x) (Some y) = (if x + y = 0 then None else Some (x + y))"

section \<open>Properties of the merge\<close>

lemma Plus_loop_merge: "Plus_loop A B sumAcc = sumAcc @ spec_union_merge A B"
  by (induction A B sumAcc rule: Plus_loop.induct) auto

lemma Plus_merge: "Plus A B = spec_union_merge A B"
  by (simp add: Plus_def Plus_loop_merge)

lemma Plus_loop_commute: "Plus_loop A B sumAcc = Plus_loop B A sumAcc"
proof (induction A B sumAcc rule: Plus_loop.induct)
  case (4 coinA restA coinB restB sumAcc)
  then show ?case
    by (cases "Denom coinA < Denom coinB"; cases "Denom coinA = Denom coinB")
       (auto simp: add.commute)
qed simp_all

lemma Plus_loop_Negative: "Plus_loop A (Negative A) sumAcc = sumAcc"
  by (induction A arbitrary: sumAcc) (simp_all add: Negative_def)

text \<open>
  Structural equality of two sequences, as \<^verbatim>\<open>IsEqual\<close> decides it, is equality of the
  lists.
\<close>

lemma IsEqual_iff: "IsEqual A B \<longleftrightarrow> A = B"
proof -
  have "length A = length B \<Longrightarrow> IsEqual_loop A B \<longleftrightarrow> A = B"
    by (induction A B rule: list_induct2) auto
  then show ?thesis by (auto simp: IsEqual_def)
qed

lemma IsNonnegative_iff: "IsNonnegative coins = (\<forall>c \<in> set coins. 0 \<le> sint (Amount c))"
  by (induction coins) auto

lemma merge_denoms:
  "c \<in> set (spec_union_merge A B) \<Longrightarrow> Denom c \<in> Denom ` set A \<union> Denom ` set B"
proof (induction A B rule: spec_union_merge.induct)
  case (3 a A b B)
  consider (lt) "Denom a < Denom b" | (gt) "Denom b < Denom a" | (eq) "Denom a = Denom b"
    by (meson linorder_less_linear)
  then show ?case
  proof cases
    case lt
    with "3.IH"(1) "3.prems" show ?thesis by auto
  next
    case gt
    then have "\<not> Denom a < Denom b" by simp
    with gt "3.IH"(2) "3.prems" show ?thesis by auto
  next
    case eq
    with "3.IH"(3,4) "3.prems" show ?thesis by (cases "Amount a + Amount b = 0") auto
  qed
qed auto

lemma denomSorted_Cons:
  "denomSorted (c # cs) = ((\<forall>x \<in> set cs. Denom c < Denom x) \<and> denomSorted cs)"
  by (auto simp: denomSorted_def)

lemma merge_lower:
  assumes "\<forall>x \<in> set A. d < Denom x" "\<forall>x \<in> set B. d < Denom x"
  shows "\<forall>x \<in> set (spec_union_merge A B). d < Denom x"
  using assms merge_denoms by fastforce

lemma merge_denomSorted:
  "denomSorted A \<Longrightarrow> denomSorted B \<Longrightarrow> denomSorted (spec_union_merge A B)"
proof (induction A B rule: spec_union_merge.induct)
  case (3 a A b B)
  have A: "\<forall>x \<in> set A. Denom a < Denom x" and B: "\<forall>x \<in> set B. Denom b < Denom x"
    and sA: "denomSorted A" and sB: "denomSorted B"
    using "3.prems" by (simp_all add: denomSorted_Cons)
  consider (lt) "Denom a < Denom b" | (gt) "Denom b < Denom a" | (eq) "Denom a = Denom b"
    by (meson linorder_less_linear)
  then show ?case
  proof cases
    case lt
    have "\<forall>x \<in> set (spec_union_merge A (b # B)). Denom a < Denom x"
      using A B lt by (intro merge_lower) auto
    with "3.IH"(1) "3.prems" sA lt show ?thesis by (simp add: denomSorted_Cons)
  next
    case gt
    then have n: "\<not> Denom a < Denom b" by simp
    have "\<forall>x \<in> set (spec_union_merge (a # A) B). Denom b < Denom x"
      using A B gt by (intro merge_lower) auto
    with "3.IH"(2) "3.prems" sB gt n show ?thesis by (simp add: denomSorted_Cons)
  next
    case eq
    have "\<forall>x \<in> set (spec_union_merge A B). Denom a < Denom x"
      using A B eq by (intro merge_lower) auto
    with "3.IH"(3,4) sA sB eq show ?thesis by (simp add: denomSorted_Cons)
  qed
qed (simp_all add: denomSorted_def)

lemma amountOf_None: "d \<notin> Denom ` set cs \<Longrightarrow> amountOf cs d = None"
  by (induction cs) auto

lemma amountOf_below: "\<forall>x \<in> set cs. d < Denom x \<Longrightarrow> amountOf cs d = None"
  by (rule amountOf_None) auto

lemma spec_sum_None [simp]: "spec_sum x None = x" "spec_sum None y = y"
  by (cases x; simp) (cases y; simp)

lemma merge_amountOf:
  "denomSorted A \<Longrightarrow> denomSorted B \<Longrightarrow>
   amountOf (spec_union_merge A B) d = spec_sum (amountOf A d) (amountOf B d)"
proof (induction A B rule: spec_union_merge.induct)
  case (3 a A b B)
  have A: "\<forall>x \<in> set A. Denom a < Denom x" and B: "\<forall>x \<in> set B. Denom b < Denom x"
    and sA: "denomSorted A" and sB: "denomSorted B"
    using "3.prems" by (simp_all add: denomSorted_Cons)
  consider (lt) "Denom a < Denom b" | (gt) "Denom b < Denom a" | (eq) "Denom a = Denom b"
    by (meson linorder_less_linear)
  then show ?case
  proof cases
    case lt
    have "amountOf (b # B) (Denom a) = None"
      using lt B by (intro amountOf_None) auto
    with "3.IH"(1) "3.prems" sA lt show ?thesis by auto
  next
    case gt
    then have n: "\<not> Denom a < Denom b" by simp
    have "amountOf (a # A) (Denom b) = None"
      using gt A by (intro amountOf_None) auto
    with "3.IH"(2) "3.prems" sB gt n show ?thesis by auto
  next
    case eq
    have nA: "amountOf A (Denom b) = None" using A eq by (intro amountOf_None) auto
    have nB: "amountOf B (Denom b) = None" using B by (intro amountOf_None) auto
    have "\<forall>x \<in> set (spec_union_merge A B). Denom b < Denom x"
      using A B eq by (intro merge_lower) auto
    then have nM: "amountOf (spec_union_merge A B) (Denom b) = None"
      by (intro amountOf_None) auto
    from "3.IH"(3,4) eq sA sB nA nB nM show ?thesis by auto
  qed
qed simp_all

lemma merge_nonzero:
  "\<forall>c \<in> set A. Amount c \<noteq> 0 \<Longrightarrow> \<forall>c \<in> set B. Amount c \<noteq> 0 \<Longrightarrow>
   \<forall>c \<in> set (spec_union_merge A B). Amount c \<noteq> 0"
  by (induction A B rule: spec_union_merge.induct) auto

lemma IsValid_loop_iff:
  "IsValid_loop lowDenom cs =
     (sorted_wrt (<) (lowDenom # map Denom cs) \<and> (\<forall>c \<in> set cs. Amount c \<noteq> 0))"
proof (induction cs arbitrary: lowDenom)
  case (Cons c cs)
  then show ?case by (auto simp: not_le)
qed simp

text \<open>
  What \<^verbatim>\<open>IsValid\<close> decides: the denominations ascend strictly, and no amount is zero
  among the coins after the first one, or in the only coin of a sequence of one.
\<close>

lemma IsValid_iff:
  "IsValid cs \<longleftrightarrow>
     denomSorted cs \<and>
     (case cs of [] \<Rightarrow> True | [c] \<Rightarrow> Amount c \<noteq> 0
      | c # rest \<Rightarrow> (\<forall>x \<in> set rest. Amount x \<noteq> 0))"
  by (cases cs rule: IsValid.cases) (auto simp: IsValid_loop_iff denomSorted_def)

lemma IsValid_sorted_nonzero:
  "denomSorted cs \<Longrightarrow> \<forall>c \<in> set cs. Amount c \<noteq> 0 \<Longrightarrow> IsValid cs"
  by (cases cs rule: IsValid.cases) (auto simp: IsValid_loop_iff denomSorted_def)


lemma denomSorted_amountOf_unique:
  "denomSorted xs \<Longrightarrow> denomSorted ys \<Longrightarrow> (\<And>d. amountOf xs d = amountOf ys d) \<Longrightarrow> xs = ys"
proof (induction xs arbitrary: ys)
  case Nil
  show ?case
  proof (cases ys)
    case (Cons y ys')
    with Nil(3) [of "Denom y"] show ?thesis by simp
  qed simp
next
  case (Cons x xs)
  show ?case
  proof (cases ys)
    case Nil
    with Cons.prems(3) [of "Denom x"] show ?thesis by simp
  next
    case (Cons y ys')
    have X: "\<forall>c \<in> set xs. Denom x < Denom c" and sx: "denomSorted xs"
      using Cons.prems(1) by (simp_all add: denomSorted_Cons)
    have Y: "\<forall>c \<in> set ys'. Denom y < Denom c" and sy: "denomSorted ys'"
      using Cons.prems(2) Cons by (simp_all add: denomSorted_Cons)
    have eq: "\<And>d. amountOf (x # xs) d = amountOf (y # ys') d"
      using Cons.prems(3) Cons by simp
    have d: "Denom x = Denom y"
    proof (rule ccontr)
      assume ne: "Denom x \<noteq> Denom y"
      then consider "Denom x < Denom y" | "Denom y < Denom x" by (meson linorder_less_linear)
      then show False
      proof cases
        case 1
        then have "amountOf (y # ys') (Denom x) = None"
          using Y by (intro amountOf_None) auto
        with eq [of "Denom x"] show False by simp
      next
        case 2
        then have "amountOf (x # xs) (Denom y) = None"
          using X by (intro amountOf_None) auto
        with eq [of "Denom y"] show False by simp
      qed
    qed
    with eq [of "Denom x"] have xy: "x = y" by simp
    have "amountOf xs e = amountOf ys' e" for e
    proof (cases "e = Denom x")
      case True
      have "amountOf xs e = None" using X True by (intro amountOf_None) auto
      moreover have "amountOf ys' e = None" using Y True d by (intro amountOf_None) auto
      ultimately show ?thesis by simp
    next
      case False
      with eq [of e] d show ?thesis by simp
    qed
    with Cons.IH [OF sx sy] have "xs = ys'" by blast
    with xy Cons show ?thesis by simp
  qed
qed

section \<open>Properties of the parser and the formatter\<close>

subsection \<open>The pattern and the number conversions\<close>

lemma isSpace_not_isDigit: "isSpace c \<Longrightarrow> \<not> isDigit c"
  by (auto simp: isSpace_def isDigit_def less_eq_char_def)

lemma isAlpha_not_isDigit: "isAlpha c \<Longrightarrow> \<not> isDigit c"
  by (auto simp: isAlpha_def isDigit_def less_eq_char_def)

lemma isAlpha_not_isSpace: "isAlpha c \<Longrightarrow> \<not> isSpace c"
  by (auto simp: isAlpha_def isSpace_def less_eq_char_def)

lemma takeWhile_run:
  assumes "list_all P xs" and "ys = [] \<or> \<not> P (hd ys)"
  shows "takeWhile P (xs @ ys) = xs" and "dropWhile P (xs @ ys) = ys"
  using assms by (cases ys; simp add: list_all_iff takeWhile_append2 dropWhile_append2)+

lemma reCoin_match:
  assumes "ds \<noteq> []" "list_all isDigit ds" "list_all isSpace ws" "ls \<noteq> []" "list_all isAlpha ls"
  shows "reCoin_FindStringSubmatch (ds @ ws @ ls) = Some (ds, ls)"
proof -
  have l: "isAlpha (hd ls)" using assms(4,5) by (cases ls) simp_all
  have "ws @ ls = [] \<or> \<not> isDigit (hd (ws @ ls))"
    using assms(3) l by (cases ws) (simp_all add: isSpace_not_isDigit isAlpha_not_isDigit)
  then have d: "takeWhile isDigit (ds @ ws @ ls) = ds" "dropWhile isDigit (ds @ ws @ ls) = ws @ ls"
    using takeWhile_run [OF assms(2)] by blast+
  have "ls = [] \<or> \<not> isSpace (hd ls)" using l by (simp add: isAlpha_not_isSpace)
  then have s: "dropWhile isSpace (ws @ ls) = ls"
    using takeWhile_run(2) [OF assms(3)] by blast
  have a: "takeWhile isAlpha ls = ls" "dropWhile isAlpha ls = []"
    using takeWhile_run [OF assms(5), of "[]"] by simp_all
  show ?thesis
    unfolding reCoin_FindStringSubmatch_def Let_def d s a using assms(1,4) by simp
qed

lemma reCoin_grammar:
  "reCoin_FindStringSubmatch t = Some (ds, ls) \<longleftrightarrow> spec_coin_grammar t ds ls"
proof
  assume m: "reCoin_FindStringSubmatch t = Some (ds, ls)"
  define r where "r = dropWhile isDigit t"
  define r' where "r' = dropWhile isSpace r"
  from m have ds: "ds = takeWhile isDigit t" "ds \<noteq> []" and ls: "ls = takeWhile isAlpha r'" "ls \<noteq> []"
    and e: "dropWhile isAlpha r' = []"
    by (auto simp: reCoin_FindStringSubmatch_def Let_def r_def r'_def split: if_splits)
  have "t = ds @ r" by (simp add: ds r_def)
  moreover have "r = takeWhile isSpace r @ r'" by (simp add: r'_def)
  moreover have "r' = ls" by (metis takeWhile_dropWhile_id append_Nil2 e ls(1))
  ultimately have "t = ds @ takeWhile isSpace r @ ls" by simp
  moreover have "list_all isDigit ds" "list_all isSpace (takeWhile isSpace r)" "list_all isAlpha ls"
    by (auto simp: ds ls list_all_iff dest: set_takeWhileD)
  ultimately show "spec_coin_grammar t ds ls"
    using ds(2) ls(2) unfolding spec_coin_grammar_def by blast
next
  assume "spec_coin_grammar t ds ls"
  then show "reCoin_FindStringSubmatch t = Some (ds, ls)"
    unfolding spec_coin_grammar_def by (auto simp: reCoin_match)
qed

lemma reCoin_None:
  "reCoin_FindStringSubmatch t = None \<longleftrightarrow> (\<nexists>ds ls. spec_coin_grammar t ds ls)"
proof -
  have "reCoin_FindStringSubmatch t = None \<longleftrightarrow> (\<forall>ds ls. reCoin_FindStringSubmatch t \<noteq> Some (ds, ls))"
    by (cases "reCoin_FindStringSubmatch t") auto
  then show ?thesis by (simp add: reCoin_grammar)
qed

lemma Atoi_digits:
  assumes "ds \<noteq> []" "list_all isDigit ds"
  shows "Atoi intSize ds =
    (if decimal ds < 2 ^ (intSize - 1) then Inr (decimal ds) else Inl (NumError ds ErrRange))"
proof -
  have "isDigit (hd ds)" using assms by (cases ds) simp_all
  then have "hd ds \<noteq> CHR ''-''" "hd ds \<noteq> CHR ''+''"
    by (auto simp: isDigit_def less_eq_char_def)
  with assms show ?thesis by (simp add: Atoi_def)
qed

lemma isDigit_of_char: "isDigit c \<longleftrightarrow> 48 \<le> (of_char c :: nat) \<and> (of_char c :: nat) \<le> 57"
  by (simp add: isDigit_def less_eq_char_def)

lemma decimal_snoc: "decimal (ds @ [c]) = 10 * decimal ds + (int (of_char c) - 48)"
  by (simp add: decimal_def)

lemma digitsOf_props:
  "digitsOf n \<noteq> [] \<and> list_all isDigit (digitsOf n) \<and> decimal (digitsOf n) = int n"
proof (induction n rule: digitsOf.induct)
  case (1 n)
  show ?case
  proof (cases "n < 10")
    case True
    then have "digitsOf n = [char_of (48 + n)]" by (subst digitsOf.simps) simp
    moreover have "(48 + n) mod 256 = 48 + n" using True by simp
    ultimately show ?thesis using True by (simp add: isDigit_of_char decimal_def)
  next
    case False
    then have d: "digitsOf n = digitsOf (n div 10) @ [char_of (48 + n mod 10)]"
      by (subst digitsOf.simps) simp
    have m: "(48 + n mod 10) mod 256 = 48 + n mod 10"
      by (rule mod_less) (simp add: less_le_trans [OF add_strict_left_mono [OF pos_mod_bound]])
    from 1 [OF False] have ih: "digitsOf (n div 10) \<noteq> []" "list_all isDigit (digitsOf (n div 10))"
        "decimal (digitsOf (n div 10)) = int (n div 10)" by simp_all
    have "decimal (digitsOf n) = 10 * int (n div 10) + int (n mod 10)"
      unfolding d decimal_snoc ih(3) by (simp add: m)
    also have "\<dots> = int n" by (simp add: zdiv_int zmod_int)
    finally have "decimal (digitsOf n) = int n" .
    moreover have "list_all isDigit (digitsOf n)"
      unfolding d using ih(2) by (simp add: isDigit_of_char m)
    ultimately show ?thesis unfolding d by simp
  qed
qed

subsection \<open>Trimming and splitting\<close>

lemma trimRunes_stop:
  assumes "\<forall>r \<in> set runes. r \<noteq> [] \<and> hd r \<noteq> c"
  shows "trimRunes runes (c # cs) = c # cs"
proof -
  have "find (\<lambda>r. take (length r) (c # cs) = r) runes = None"
    unfolding find_None_iff
  proof (intro notI, elim exE conjE)
    fix r assume r: "r \<in> set runes" "take (length r) (c # cs) = r"
    with assms have "r \<noteq> []" "hd r \<noteq> c" by auto
    with r(2) show False by (cases r) auto
  qed
  then show ?thesis by simp
qed

lemma spaceRunes_ends:
  "\<forall>r \<in> set spaceRunes. r \<noteq> [] \<and> \<not> isDigit (hd r) \<and> \<not> isAlpha (hd r)
     \<and> \<not> isDigit (last r) \<and> \<not> isAlpha (last r)"
  by (simp add: spaceRunes_def isDigit_def isAlpha_def less_eq_char_def)

lemma TrimSpace_id:
  assumes "s \<noteq> []" "isDigit (hd s) \<or> isAlpha (hd s)" "isDigit (last s) \<or> isAlpha (last s)"
  shows "TrimSpace s = s"
proof -
  obtain c cs where s: "s = c # cs" using assms(1) by (cases s) auto
  have "\<forall>r \<in> set spaceRunes. r \<noteq> [] \<and> hd r \<noteq> c"
    using spaceRunes_ends assms(2) s by auto
  then have l: "trimRunes spaceRunes s = s" unfolding s by (rule trimRunes_stop)
  obtain d ds where r: "rev s = d # ds" using assms(1) by (cases "rev s") auto
  then have d: "d = last s" using assms(1) by (metis last_rev list.sel(1) rev_rev_ident hd_rev)
  have "\<forall>r \<in> set (map rev spaceRunes). r \<noteq> [] \<and> hd r \<noteq> d"
    using spaceRunes_ends assms(3) d by (auto simp: hd_rev)
  then have "trimRunes (map rev spaceRunes) (rev s) = rev s" unfolding r by (rule trimRunes_stop)
  then show ?thesis by (simp add: TrimSpace_def l)
qed

lemma TrimSpace_leading_space: "TrimSpace (CHR '' '' # s) = TrimSpace s"
  by (simp add: TrimSpace_def spaceRunes_def)

lemma Split_nonempty: "Split s sep \<noteq> []"
  by (cases s) simp_all

lemma Split_no_sep: "sep \<notin> set s \<Longrightarrow> Split s sep = [s]"
  by (induction s) auto

lemma Split_append: "Split (a @ sep # b) sep = Split a sep @ Split b sep"
proof (induction a)
  case (Cons c a)
  then show ?case using Split_nonempty [of a sep] by (cases "Split a sep") auto
qed simp

lemma Split_token: "sep \<notin> set a \<Longrightarrow> Split (a @ sep # b) sep = a # Split b sep"
  by (simp add: Split_append Split_no_sep)

subsection \<open>Parsing what \<^verbatim>\<open>String\<close> prints\<close>

lemma Coin_String_nonneg:
  "0 \<le> sint (Amount coin) \<Longrightarrow> Coin_String coin = digitsOf (nat (sint (Amount coin))) @ Denom coin"
  by (simp add: Coin_String_def FormatInt_def)

lemma ParseCoin_Coin_String:
  assumes "0 \<le> sint (Amount coin)" "sint (Amount coin) < 2 ^ (intSize - 1)"
    and "Denom coin \<noteq> []" "list_all isAlpha (Denom coin)"
  shows "ParseCoin intSize (Coin_String coin) = Inr coin"
proof -
  define ds where "ds = digitsOf (nat (sint (Amount coin)))"
  have ds: "ds \<noteq> []" "list_all isDigit ds" "decimal ds = sint (Amount coin)"
    using digitsOf_props [of "nat (sint (Amount coin))"] assms(1) by (simp_all add: ds_def)
  have str: "Coin_String coin = ds @ [] @ Denom coin"
    using assms(1) by (simp add: Coin_String_nonneg ds_def)
  have "isDigit (hd ds)" using ds(1,2) by (cases ds) simp_all
  moreover have "isAlpha (last (Denom coin))"
    using assms(3,4) by (simp add: list_all_iff)
  ultimately have "TrimSpace (ds @ [] @ Denom coin) = ds @ [] @ Denom coin"
    using ds(1) assms(3) by (intro TrimSpace_id) simp_all
  moreover have "reCoin_FindStringSubmatch (ds @ [] @ Denom coin) = Some (ds, Denom coin)"
    using ds(1,2) assms(3,4) by (intro reCoin_match) simp_all
  moreover have "Atoi intSize ds = Inr (sint (Amount coin))"
    using assms(2) by (simp add: Atoi_digits [OF ds(1,2)] ds(3))
  ultimately show ?thesis by (simp add: ParseCoin_def str)
qed

lemma Coin_String_no_comma:
  assumes "0 \<le> sint (Amount coin)" "list_all isAlpha (Denom coin)"
  shows "CHR '','' \<notin> set (Coin_String coin)"
proof -
  have "list_all isDigit (digitsOf (nat (sint (Amount coin))))" by (simp add: digitsOf_props)
  then have "\<forall>x \<in> set (Coin_String coin). isDigit x \<or> isAlpha x"
    using assms by (auto simp: Coin_String_nonneg list_all_iff)
  moreover have "\<not> isDigit (CHR '','')" "\<not> isAlpha (CHR '','')"
    by (simp_all add: isDigit_def isAlpha_def less_eq_char_def)
  ultimately show ?thesis by blast
qed

lemma Coin_String_nonempty: "0 \<le> sint (Amount coin) \<Longrightarrow> Coin_String coin \<noteq> []"
  by (simp add: Coin_String_nonneg digitsOf_props)

lemma foldl_append_concat: "foldl (\<lambda>out x. out @ g x) acc xs = acc @ concat (map g xs)"
  by (induction xs arbitrary: acc) simp_all

lemma Coins_String_Cons:
  "Coins_String (x # xs) = butlast (concat (map (\<lambda>coin. Coin_String coin @ '','') (x # xs)))"
  unfolding Coins_String_def using foldl_append_concat [of "\<lambda>coin. Coin_String coin @ '',''" "[]" "x # xs"]
  by simp

lemma Split_joined:
  assumes "xs \<noteq> []" "\<forall>x \<in> set xs. sep \<notin> set (f x)"
  shows "Split (butlast (concat (map (\<lambda>x. f x @ [sep]) xs))) sep = map f xs"
  using assms
proof (induction xs rule: list_nonempty_induct)
  case (single x)
  then show ?case by (simp add: Split_no_sep)
next
  case (cons x xs)
  have ne: "concat (map (\<lambda>x. f x @ [sep]) xs) \<noteq> []" using cons.hyps by (cases xs) simp_all
  have "butlast (concat (map (\<lambda>x. f x @ [sep]) (x # xs)))
      = f x @ sep # butlast (concat (map (\<lambda>x. f x @ [sep]) xs))"
    using ne by (simp add: butlast_append)
  with cons show ?case by (simp add: Split_token)
qed

lemma ParseCoins_loop_String:
  assumes "\<forall>coin \<in> set cs. ParseCoin intSize (Coin_String coin) = Inr coin"
  shows "ParseCoins_loop intSize (map Coin_String cs) acc = Inr (acc @ cs)"
  using assms by (induction cs arbitrary: acc) simp_all

lemma IsValid_denomSorted: "IsValid cs \<Longrightarrow> denomSorted cs"
  by (cases cs rule: IsValid.cases) (simp_all add: IsValid_loop_iff denomSorted_def)

lemma Sort_sorted: "denomSorted cs \<Longrightarrow> Sort cs = cs"
  unfolding Sort_def denomSorted_def
  by (intro sort_key_id_if_sorted strict_sorted_imp_sorted)

lemma Sort_contract: "mset (Sort c) = mset c \<and> sorted (map Denom (Sort c))"
  by (simp add: Sort_def)

lemma ParseCoin_match:
  assumes "spec_coin_grammar (TrimSpace s) ds ls"
  shows "ParseCoin intSize s =
    (if decimal ds < 2 ^ (intSize - 1) then Inr \<lparr>Denom = ls, Amount = word_of_int (decimal ds)\<rparr>
     else Inl (NumError ds ErrRange))"
proof -
  have m: "reCoin_FindStringSubmatch (TrimSpace s) = Some (ds, ls)"
    using assms by (simp add: reCoin_grammar)
  have "ds \<noteq> []" "list_all isDigit ds" using assms by (auto simp: spec_coin_grammar_def)
  then show ?thesis by (simp add: ParseCoin_def m Atoi_digits)
qed

lemma ParseCoin_no_match:
  assumes "\<nexists>ds ls. spec_coin_grammar (TrimSpace s) ds ls"
  shows "ParseCoin intSize s = Inl (InvalidFormat s)"
proof -
  have "reCoin_FindStringSubmatch (TrimSpace s) = None" using assms by (simp add: reCoin_None)
  then show ?thesis by (simp add: ParseCoin_def)
qed

lemma decimal_nonneg: "list_all isDigit ds \<Longrightarrow> 0 \<le> decimal ds"
proof -
  have "list_all isDigit ds \<Longrightarrow> 0 \<le> n
      \<Longrightarrow> 0 \<le> foldl (\<lambda>n c. 10 * n + (int (of_char c) - 48)) n ds" for n
  proof (induction ds arbitrary: n)
    case (Cons c cs)
    from Cons.prems have "48 \<le> int (of_char c)" by (simp add: isDigit_of_char)
    with Cons show ?case by simp
  qed simp
  then show "list_all isDigit ds \<Longrightarrow> 0 \<le> decimal ds" by (simp add: decimal_def)
qed

lemma sint_decimal:
  assumes "list_all isDigit ds" "decimal ds < 2 ^ (intSize - 1)" "intSize \<le> 64"
  shows "sint (word_of_int (decimal ds) :: 64 word) = decimal ds"
proof -
  have "(2::int) ^ (intSize - 1) \<le> 2 ^ 63" using assms(3) by (intro power_increasing) simp_all
  with assms(2) have "decimal ds < 2 ^ 63" by linarith
  moreover have "0 \<le> decimal ds" using assms(1) by (rule decimal_nonneg)
  ultimately show ?thesis
    by (simp add: sint_sbintrunc' signed_take_bit_int_eq_self)
qed

lemma ParseCoin_leading_space:
  "ParseCoin intSize (CHR '' '' # t) = Inr coin \<longleftrightarrow> ParseCoin intSize t = Inr coin"
  by (simp add: ParseCoin_def TrimSpace_leading_space split: option.splits)

lemma ParseCoins_loop_cong:
  assumes "\<And>coin. ParseCoin intSize y = Inr coin \<longleftrightarrow> ParseCoin intSize y' = Inr coin"
  shows "ParseCoins_loop intSize (xs @ y # zs) acc = Inr cs
     \<longleftrightarrow> ParseCoins_loop intSize (xs @ y' # zs) acc = Inr cs"
proof (induction xs arbitrary: acc)
  case Nil
  show ?case
  proof (cases "ParseCoin intSize y")
    case (Inl e)
    then have "\<And>coin. ParseCoin intSize y' \<noteq> Inr coin" using assms by auto
    then obtain e' where "ParseCoin intSize y' = Inl e'" by (cases "ParseCoin intSize y'") auto
    with Inl show ?thesis by simp
  next
    case (Inr coin)
    then have "ParseCoin intSize y' = Inr coin" using assms by simp
    with Inr show ?thesis by simp
  qed
next
  case (Cons x xs)
  then show ?case by (cases "ParseCoin intSize x") simp_all
qed

lemma ParseCoins_Inr_iff:
  "s \<noteq> [] \<Longrightarrow> ParseCoins intSize s = Inr cs \<longleftrightarrow>
     (\<exists>coins. ParseCoins_loop intSize (Split s (CHR '','')) [] = Inr coins
        \<and> IsValid (Sort coins) \<and> cs = Sort coins)"
  by (auto simp: ParseCoins_def Let_def split: sum.splits)

text \<open>
  The definitions that evaluate the parser and the formatter on a given text.
\<close>

lemmas parse_eval =
  ParseCoins_def ParseCoin_def reCoin_FindStringSubmatch_def TrimSpace_def spaceRunes_def
  isDigit_def isSpace_def isAlpha_def less_eq_char_def Atoi_def decimal_def Sort_def
  Coins_String_def Coin_String_def FormatInt_def digitsOf.simps char_of_def bit_Suc_0_iff

section \<open>The claims\<close>

text \<open>
  C1. For operands with strictly ascending denominations, \<^verbatim>\<open>Plus\<close> is the union-merge
  of the specification. The result is the sequence \<^const>\<open>spec_union_merge\<close> describes
  step by step; its denominations are again strictly ascending; and for every denomination
  \<open>d\<close> it holds the amount of the only operand that has \<open>d\<close>, or the 64-bit sum of the
  two amounts when both have it, and no coin at all when that sum is zero. By
  \<open>denomSorted_amountOf_unique\<close> the last two facts determine the result.
\<close>

theorem Plus_union_merge:
  assumes "denomSorted A" and "denomSorted B"
  shows "Plus A B = spec_union_merge A B \<and> denomSorted (Plus A B)
    \<and> (\<forall>d. amountOf (Plus A B) d = spec_sum (amountOf A d) (amountOf B d))"
  using assms by (simp add: Plus_merge merge_denomSorted merge_amountOf)

theorem Plus_union_merge_witness:
  "denomSorted [\<lparr>Denom = ''atom'', Amount = 5\<rparr>, \<lparr>Denom = ''eth'', Amount = 1\<rparr>]
   \<and> denomSorted [\<lparr>Denom = ''atom'', Amount = - 5\<rparr>, \<lparr>Denom = ''btc'', Amount = 3\<rparr>]
   \<and> Plus [\<lparr>Denom = ''atom'', Amount = 5\<rparr>, \<lparr>Denom = ''eth'', Amount = 1\<rparr>]
          [\<lparr>Denom = ''atom'', Amount = - 5\<rparr>, \<lparr>Denom = ''btc'', Amount = 3\<rparr>]
       = [\<lparr>Denom = ''btc'', Amount = 3\<rparr>, \<lparr>Denom = ''eth'', Amount = 1\<rparr>]"
proof -
  have a: "denomSorted [\<lparr>Denom = ''atom'', Amount = 5\<rparr>, \<lparr>Denom = ''eth'', Amount = 1\<rparr>]"
    by (simp add: denomSorted_def)
  have b: "denomSorted [\<lparr>Denom = ''atom'', Amount = - 5\<rparr>, \<lparr>Denom = ''btc'', Amount = 3\<rparr>]"
    by (simp add: denomSorted_def)
  show ?thesis using a b Plus_union_merge [OF a b] by simp
qed

text \<open>
  C2. When both operands have strictly ascending denominations and no zero amount,
  \<^verbatim>\<open>A.Plus(B)\<close> passes \<^verbatim>\<open>IsValid\<close>, and it is strictly ascending by denomination with
  no zero amount.
\<close>

theorem Plus_preserves_IsValid:
  assumes "denomSorted A" and "denomSorted B"
    and "\<forall>c \<in> set A. Amount c \<noteq> 0" and "\<forall>c \<in> set B. Amount c \<noteq> 0"
  shows "IsValid (Plus A B) \<and> denomSorted (Plus A B) \<and> (\<forall>c \<in> set (Plus A B). Amount c \<noteq> 0)"
proof -
  have s: "denomSorted (Plus A B)"
    using assms(1,2) by (simp add: Plus_merge merge_denomSorted)
  have z: "\<forall>c \<in> set (Plus A B). Amount c \<noteq> 0"
    using merge_nonzero [OF assms(3,4)] by (simp add: Plus_merge)
  from s z show ?thesis by (simp add: IsValid_sorted_nonzero)
qed

theorem Plus_preserves_IsValid_witness:
  "IsValid (Plus [\<lparr>Denom = ''atom'', Amount = 10\<rparr>]
                 [\<lparr>Denom = ''atom'', Amount = - 3\<rparr>, \<lparr>Denom = ''btc'', Amount = - 1\<rparr>])
   \<and> Plus [\<lparr>Denom = ''atom'', Amount = 10\<rparr>]
          [\<lparr>Denom = ''atom'', Amount = - 3\<rparr>, \<lparr>Denom = ''btc'', Amount = - 1\<rparr>]
       = [\<lparr>Denom = ''atom'', Amount = 7\<rparr>, \<lparr>Denom = ''btc'', Amount = - 1\<rparr>]"
proof -
  have a: "denomSorted [\<lparr>Denom = ''atom'', Amount = 10\<rparr>]"
    by (simp add: denomSorted_def)
  have b: "denomSorted [\<lparr>Denom = ''atom'', Amount = - 3\<rparr>, \<lparr>Denom = ''btc'', Amount = - 1\<rparr>]"
    by (simp add: denomSorted_def)
  have za: "\<forall>c \<in> set [\<lparr>Denom = ''atom'', Amount = 10 :: 64 word\<rparr>]. Amount c \<noteq> 0"
    by simp
  have zb: "\<forall>c \<in> set [\<lparr>Denom = ''atom'', Amount = - 3 :: 64 word\<rparr>,
      \<lparr>Denom = ''btc'', Amount = - 1\<rparr>]. Amount c \<noteq> 0"
    by simp
  show ?thesis using Plus_preserves_IsValid [OF a b za zb] by (simp add: Plus_def)
qed

text \<open>
  C3. \<^verbatim>\<open>A.Plus(B)\<close> and \<^verbatim>\<open>B.Plus(A)\<close> are the same sequence, coin for coin. The
  code gives this for all operands, so in particular for the denomination-sorted,
  duplicate-free ones the claim speaks of.
\<close>

theorem Plus_commutative: "Plus A B = Plus B A"
  unfolding Plus_def by (rule Plus_loop_commute)

text \<open>
  C4, as amended. The round trip through \<^verbatim>\<open>String\<close> and \<^verbatim>\<open>ParseCoins\<close> holds for the
  valid sequences that the text format can express: every amount is positive and within
  the range of the platform's \<^verbatim>\<open>int\<close> (every positive \<^verbatim>\<open>int64\<close> when \<open>intSize\<close> is 64),
  and every denomination is a non-empty string of ASCII letters. For them
  \<^verbatim>\<open>ParseCoins(c.String())\<close> succeeds and returns \<open>c\<close>.
\<close>

theorem ParseCoins_String_roundtrip:
  assumes "IsValid c"
    and "\<forall>coin \<in> set c. 0 < sint (Amount coin) \<and> sint (Amount coin) < 2 ^ (intSize - 1)"
    and "\<forall>coin \<in> set c. Denom coin \<noteq> [] \<and> list_all isAlpha (Denom coin)"
  shows "ParseCoins intSize (Coins_String c) = Inr c"
proof (cases c)
  case Nil
  then show ?thesis by (simp add: Coins_String_def ParseCoins_def)
next
  case (Cons x xs)
  have nn: "\<forall>coin \<in> set c. 0 \<le> sint (Amount coin)" using assms(2) by auto
  have pc: "\<forall>coin \<in> set c. ParseCoin intSize (Coin_String coin) = Inr coin"
    using assms(2,3) nn by (auto intro!: ParseCoin_Coin_String)
  have nc: "\<forall>coin \<in> set c. CHR '','' \<notin> set (Coin_String coin)"
    using assms(3) nn Coin_String_no_comma by blast
  have str: "Coins_String c = butlast (concat (map (\<lambda>coin. Coin_String coin @ '','') c))"
    unfolding Cons by (rule Coins_String_Cons)
  have "Coin_String x \<noteq> []" using nn Cons by (simp add: Coin_String_nonempty)
  moreover have "Coins_String (x # xs)
      = Coin_String x @ butlast ('','' @ concat (map (\<lambda>coin. Coin_String coin @ '','') xs))"
    unfolding Coins_String_Cons by (simp add: butlast_append)
  ultimately have ne: "Coins_String c \<noteq> []"
    unfolding Cons by simp
  have "Split (Coins_String c) (CHR '','') = map Coin_String c"
    unfolding str using nc Cons by (intro Split_joined) simp_all
  then have "ParseCoins_loop intSize (Split (Coins_String c) (CHR '','')) [] = Inr c"
    using ParseCoins_loop_String [OF pc, of "[]"] by simp
  moreover have "Sort c = c" using assms(1) by (simp add: IsValid_denomSorted Sort_sorted)
  ultimately show ?thesis using ne assms(1) by (simp add: ParseCoins_def)
qed

theorem ParseCoins_String_roundtrip_witness:
  "IsValid [\<lparr>Denom = ''atom'', Amount = 5\<rparr>, \<lparr>Denom = ''btc'', Amount = 10\<rparr>]
   \<and> Coins_String [\<lparr>Denom = ''atom'', Amount = 5\<rparr>, \<lparr>Denom = ''btc'', Amount = 10\<rparr>]
       = ''5atom,10btc''
   \<and> ParseCoins 64 ''5atom,10btc''
       = Inr [\<lparr>Denom = ''atom'', Amount = 5\<rparr>, \<lparr>Denom = ''btc'', Amount = 10\<rparr>]"
proof -
  let ?c = "[\<lparr>Denom = ''atom'', Amount = 5\<rparr>, \<lparr>Denom = ''btc'', Amount = 10\<rparr>]"
  have v: "IsValid ?c" by simp
  have a: "\<forall>coin \<in> set ?c. 0 < sint (Amount coin) \<and> sint (Amount coin) < 2 ^ (64 - 1)"
    by simp
  have d: "\<forall>coin \<in> set ?c. Denom coin \<noteq> [] \<and> list_all isAlpha (Denom coin)"
    by (simp add: isAlpha_def less_eq_char_def)
  have s: "Coins_String ?c = ''5atom,10btc''"
    by (simp add: Coins_String_def Coin_String_def FormatInt_def digitsOf.simps char_of_def bit_Suc_0_iff)
  show ?thesis using v s ParseCoins_String_roundtrip [OF v a d] by simp
qed

text \<open>
  The round trip as the claim states it, for every sequence that passes \<^verbatim>\<open>IsValid\<close>,
  fails: \<^verbatim>\<open>IsValid\<close> accepts negative amounts and any denomination, and the pattern of
  \<^verbatim>\<open>ParseCoin\<close> accepts neither a sign nor a denomination with a digit. On a 32-bit
  platform an amount of \<open>2\<^sup>3\<^sup>1\<close> is beyond \<^verbatim>\<open>strconv.Atoi\<close>.
\<close>

theorem ParseCoins_String_roundtrip_counterexample:
  "IsValid [\<lparr>Denom = ''atom'', Amount = - 5\<rparr>]
   \<and> ParseCoins 64 (Coins_String [\<lparr>Denom = ''atom'', Amount = - 5\<rparr>])
       = Inl (InvalidFormat ''-5atom'')
   \<and> IsValid [\<lparr>Denom = ''x1'', Amount = 5\<rparr>]
   \<and> ParseCoins 64 (Coins_String [\<lparr>Denom = ''x1'', Amount = 5\<rparr>])
       = Inl (InvalidFormat ''5x1'')
   \<and> IsValid [\<lparr>Denom = ''atom'', Amount = 2147483648\<rparr>]
   \<and> ParseCoins 32 (Coins_String [\<lparr>Denom = ''atom'', Amount = 2147483648\<rparr>])
       = Inl (NumError ''2147483648'' ErrRange)"
  by (simp add: parse_eval)

text \<open>
  C5. \<^verbatim>\<open>ParseCoin(s)\<close> succeeds exactly when \<^verbatim>\<open>strings.TrimSpace(s)\<close> is one or more
  decimal digits, then optional white space of the class \<^verbatim>\<open>[[:space:]]\<close>, then one or more
  ASCII letters, and \<^verbatim>\<open>strconv.Atoi\<close> accepts the digits. The coin returned has the letters
  as its denomination and the number the digits denote as its amount (read back by
  \<^const>\<open>sint\<close> whenever \<^verbatim>\<open>int\<close> has at most 64 bits). When the trimmed text does not
  have that form the result is the \<open>InvalidFormat\<close> error with \<open>s\<close> as it was given.
\<close>

theorem ParseCoin_grammar:
  "((\<exists>coin. ParseCoin intSize s = Inr coin) \<longleftrightarrow>
      (\<exists>ds ls n. spec_coin_grammar (TrimSpace s) ds ls \<and> Atoi intSize ds = Inr n))
   \<and> (\<forall>ds ls n. spec_coin_grammar (TrimSpace s) ds ls \<and> Atoi intSize ds = Inr n \<longrightarrow>
         n = decimal ds
         \<and> ParseCoin intSize s = Inr \<lparr>Denom = ls, Amount = word_of_int (decimal ds)\<rparr>
         \<and> (intSize \<le> 64 \<longrightarrow> sint (word_of_int (decimal ds) :: 64 word) = decimal ds))
   \<and> ((\<nexists>ds ls. spec_coin_grammar (TrimSpace s) ds ls) \<longrightarrow>
         ParseCoin intSize s = Inl (InvalidFormat s))"
proof (intro conjI allI impI)
  show "(\<exists>coin. ParseCoin intSize s = Inr coin) \<longleftrightarrow>
      (\<exists>ds ls n. spec_coin_grammar (TrimSpace s) ds ls \<and> Atoi intSize ds = Inr n)"
  proof
    assume "\<exists>coin. ParseCoin intSize s = Inr coin"
    then obtain coin where c: "ParseCoin intSize s = Inr coin" ..
    then obtain ds ls where m: "reCoin_FindStringSubmatch (TrimSpace s) = Some (ds, ls)"
      by (auto simp: ParseCoin_def split: option.splits)
    with c obtain n where "Atoi intSize ds = Inr n"
      by (auto simp: ParseCoin_def split: sum.splits)
    with m show "\<exists>ds ls n. spec_coin_grammar (TrimSpace s) ds ls \<and> Atoi intSize ds = Inr n"
      by (auto simp: reCoin_grammar)
  next
    assume "\<exists>ds ls n. spec_coin_grammar (TrimSpace s) ds ls \<and> Atoi intSize ds = Inr n"
    then obtain ds ls n where g: "spec_coin_grammar (TrimSpace s) ds ls" and a: "Atoi intSize ds = Inr n"
      by blast
    then show "\<exists>coin. ParseCoin intSize s = Inr coin"
      by (simp add: ParseCoin_def reCoin_grammar [symmetric])
  qed
next
  fix ds ls n
  assume h: "spec_coin_grammar (TrimSpace s) ds ls \<and> Atoi intSize ds = Inr n"
  then have d: "ds \<noteq> []" "list_all isDigit ds" by (auto simp: spec_coin_grammar_def)
  from h have r: "decimal ds < 2 ^ (intSize - 1)" and n: "n = decimal ds"
    by (auto simp: Atoi_digits [OF d] split: if_splits)
  show "n = decimal ds" by (rule n)
  show "ParseCoin intSize s = Inr \<lparr>Denom = ls, Amount = word_of_int (decimal ds)\<rparr>"
    using ParseCoin_match [of s ds ls intSize] h r by simp
  show "sint (word_of_int (decimal ds) :: 64 word) = decimal ds" if "intSize \<le> 64"
    using d(2) r that by (rule sint_decimal)
next
  assume "\<nexists>ds ls. spec_coin_grammar (TrimSpace s) ds ls"
  then show "ParseCoin intSize s = Inl (InvalidFormat s)" by (rule ParseCoin_no_match)
qed

theorem ParseCoin_grammar_witness:
  "spec_coin_grammar (TrimSpace '' 10 atom '') ''10'' ''atom''
   \<and> Atoi 64 ''10'' = Inr 10
   \<and> ParseCoin 64 '' 10 atom '' = Inr \<lparr>Denom = ''atom'', Amount = 10\<rparr>
   \<and> (\<nexists>ds ls. spec_coin_grammar (TrimSpace ''atom10'') ds ls)
   \<and> ParseCoin 64 ''atom10'' = Inl (InvalidFormat ''atom10'')"
proof -
  have t: "TrimSpace '' 10 atom '' = ''10'' @ '' '' @ ''atom''"
    by (simp add: TrimSpace_def spaceRunes_def)
  have g: "spec_coin_grammar (TrimSpace '' 10 atom '') ''10'' ''atom''"
    unfolding t spec_coin_grammar_def
    by (intro exI [of _ "'' ''"]) (simp add: isDigit_def isSpace_def isAlpha_def less_eq_char_def)
  have a: "Atoi 64 ''10'' = Inr 10"
    by (simp add: Atoi_def isDigit_def less_eq_char_def decimal_def)
  have n: "\<nexists>ds ls. spec_coin_grammar (TrimSpace ''atom10'') ds ls"
    unfolding reCoin_None [symmetric]
    by (simp add: parse_eval)
  from ParseCoin_grammar [of 64 "'' 10 atom ''"] g a
  have "ParseCoin 64 '' 10 atom '' = Inr \<lparr>Denom = ''atom'', Amount = word_of_int (decimal ''10'')\<rparr>"
    by blast
  moreover have "decimal ''10'' = 10" by (simp add: decimal_def)
  moreover from ParseCoin_grammar [of 64 "''atom10''"] n
  have "ParseCoin 64 ''atom10'' = Inl (InvalidFormat ''atom10'')" by blast
  ultimately show ?thesis using g a n by simp
qed

text \<open>
  C6. \<^verbatim>\<open>ParseCoins\<close> on \<^verbatim>\<open>"0atom,5btc"\<close>: the sorted result holds a zero-amount coin and
  is returned without error. \<^verbatim>\<open>IsValid\<close> tests the amount of \<^verbatim>\<open>coins[0]\<close> only in a slice
  of length one; with two coins or more its loop runs over \<^verbatim>\<open>coins[1:]\<close> and the first
  amount is never looked at, against the comment above the function
  (\<^verbatim>\<open>Must be sorted, and not have 0 amounts\<close>).
\<close>

theorem ParseCoins_zero_first_coin:
  "ParseCoins 64 ''0atom,5btc''
     = Inr [\<lparr>Denom = ''atom'', Amount = 0\<rparr>, \<lparr>Denom = ''btc'', Amount = 5\<rparr>]
   \<and> \<not> IsValid [\<lparr>Denom = ''atom'', Amount = 0\<rparr>]
   \<and> IsValid [\<lparr>Denom = ''atom'', Amount = 0\<rparr>, \<lparr>Denom = ''btc'', Amount = 5\<rparr>]"
  by (simp add: parse_eval)

text \<open>
  C7. \<^verbatim>\<open>IsGTE(A, B)\<close> is true exactly when \<^verbatim>\<open>A.Minus(B)\<close> is empty or each of its
  coins has an amount that is, as a signed 64-bit number, at least zero.
\<close>

theorem IsGTE_iff:
  "IsGTE A B = (Minus A B = [] \<or> (\<forall>c \<in> set (Minus A B). 0 \<le> sint (Amount c)))"
  by (simp add: IsGTE_def Let_def IsNonnegative_iff)

theorem IsGTE_iff_witness:
  "IsGTE [\<lparr>Denom = ''atom'', Amount = 10\<rparr>] [\<lparr>Denom = ''atom'', Amount = 3\<rparr>]
   \<and> \<not> IsGTE [\<lparr>Denom = ''atom'', Amount = 10\<rparr>]
          [\<lparr>Denom = ''atom'', Amount = 3\<rparr>, \<lparr>Denom = ''btc'', Amount = 1\<rparr>]"
  using IsGTE_iff [of "[\<lparr>Denom = ''atom'', Amount = 10\<rparr>]" "[\<lparr>Denom = ''atom'', Amount = 3\<rparr>]"]
    IsGTE_iff [of "[\<lparr>Denom = ''atom'', Amount = 10\<rparr>]"
      "[\<lparr>Denom = ''atom'', Amount = 3\<rparr>, \<lparr>Denom = ''btc'', Amount = 1\<rparr>]"]
  by (simp add: Minus_def Negative_def Plus_def)

text \<open>
  C8. The empty sequence is a right identity of \<^verbatim>\<open>Plus\<close>: \<^verbatim>\<open>A.Plus(emptyCoins)\<close> is
  \<open>A\<close>, for every sequence \<open>A\<close>.
\<close>

theorem Plus_empty_right: "Plus A [] = A"
  by (cases A) (simp_all add: Plus_def)

text \<open>
  C9, as amended. A space right after a comma does not make \<^verbatim>\<open>ParseCoins\<close> fail:
  \<^verbatim>\<open>ParseCoin\<close> applies \<^verbatim>\<open>strings.TrimSpace\<close> to each piece before matching it, so the
  text with the space is parsed to a sequence exactly when the text without it is, and to
  the same sequence.
\<close>

theorem ParseCoins_space_after_comma:
  "ParseCoins intSize (pre @ '', '' @ post) = Inr cs
     \<longleftrightarrow> ParseCoins intSize (pre @ '','' @ post) = Inr cs"
proof -
  obtain t ts where p: "Split post (CHR '','') = t # ts"
    using Split_nonempty [of post "CHR '',''"] by (cases "Split post (CHR '','')") auto
  have a: "Split (pre @ '', '' @ post) (CHR '','') = Split pre (CHR '','') @ (CHR '' '' # t) # ts"
    using Split_append [of pre "CHR '',''" "CHR '' '' # post"] p by simp
  have b: "Split (pre @ '','' @ post) (CHR '','') = Split pre (CHR '','') @ t # ts"
    using Split_append [of pre "CHR '',''" post] p by simp
  have "ParseCoins_loop intSize (Split (pre @ '', '' @ post) (CHR '','')) [] = Inr coins
      \<longleftrightarrow> ParseCoins_loop intSize (Split (pre @ '','' @ post) (CHR '','')) [] = Inr coins" for coins
    unfolding a b by (rule ParseCoins_loop_cong) (rule ParseCoin_leading_space)
  then show ?thesis by (simp add: ParseCoins_Inr_iff)
qed

theorem ParseCoins_space_after_comma_witness:
  "ParseCoins 64 ''10atom, 5btc'' = ParseCoins 64 ''10atom,5btc''
   \<and> ParseCoins 64 ''10atom,5btc''
       = Inr [\<lparr>Denom = ''atom'', Amount = 10\<rparr>, \<lparr>Denom = ''btc'', Amount = 5\<rparr>]"
proof -
  have "ParseCoins 64 ''10atom,5btc''
      = Inr [\<lparr>Denom = ''atom'', Amount = 10\<rparr>, \<lparr>Denom = ''btc'', Amount = 5\<rparr>]"
    by (simp add: parse_eval)
  then show ?thesis
    using ParseCoins_space_after_comma [of 64 "''10atom''" "''5btc''"
        "[\<lparr>Denom = ''atom'', Amount = 10\<rparr>, \<lparr>Denom = ''btc'', Amount = 5\<rparr>]"]
    by simp
qed

text \<open>
  The claim as stated fails on its own example: \<^verbatim>\<open>"10atom, 5btc"\<close> is parsed without
  error, and so is the piece \<^verbatim>\<open>" 5btc"\<close> with its leading space.
\<close>

theorem ParseCoins_space_after_comma_counterexample:
  "ParseCoins 64 ''10atom, 5btc''
     = Inr [\<lparr>Denom = ''atom'', Amount = 10\<rparr>, \<lparr>Denom = ''btc'', Amount = 5\<rparr>]
   \<and> ParseCoin 64 '' 5btc'' = Inr \<lparr>Denom = ''btc'', Amount = 5\<rparr>"
  by (simp add: parse_eval)

text \<open>
  C10. \<^verbatim>\<open>A.Minus(A)\<close> is the empty sequence. Both cursors always stand on the same
  denomination, and \<open>a + (- a)\<close> is zero in 64-bit arithmetic for every \<open>a\<close>, the least
  \<^verbatim>\<open>int64\<close> included; no ordering of \<open>A\<close> is needed, and zero-amount coins vanish as well.
\<close>

theorem Minus_self: "Minus A A = []"
  by (simp add: Minus_def Plus_def Plus_loop_Negative)

end
